theory Spec2Isabelle
  imports Main "HOL-Library.AList"
begin

section \<open>Values exchanged with the window manager\<close>

text \<open>
  The client of \<^verbatim>\<open>src/dist/index.js\<close> (class \<^verbatim>\<open>WmClient\<close>) reads JSON text frames from a
  WebSocket. A decoded frame is a JavaScript value built by \<^verbatim>\<open>JSON.parse\<close>; a missing member
  reads as \<^verbatim>\<open>undefined\<close>, which is \<open>None\<close> below. Numbers are kept as integers: the code only
  ever tests them for truthiness and copies them.
\<close>

datatype json =
    JNull
  | JBool bool
  | JNum int
  | JStr string
  | JArr "json list"
  | JObj "(string \<times> json) list"

text \<open>JavaScript truthiness, as used by \<^verbatim>\<open>if (x)\<close>, \<^verbatim>\<open>x && y\<close> and \<^verbatim>\<open>x || y\<close>.\<close>

fun truthy :: "json option \<Rightarrow> bool" where
  "truthy None = False"
| "truthy (Some JNull) = False"
| "truthy (Some (JBool b)) = b"
| "truthy (Some (JNum n)) = (n \<noteq> 0)"
| "truthy (Some (JStr s)) = (s \<noteq> [])"
| "truthy (Some (JArr xs)) = True"
| "truthy (Some (JObj kvs)) = True"

text \<open>
  \<^verbatim>\<open>v.key\<close> for a decoded value \<open>v\<close> other than \<^verbatim>\<open>null\<close> and one of the member names the
  client reads (\<^verbatim>\<open>type\<close>, \<^verbatim>\<open>data\<close>, \<^verbatim>\<open>success\<close>, \<^verbatim>\<open>error\<close>): an object yields its binding, every
  other value yields \<^verbatim>\<open>undefined\<close>. Reading a member of \<^verbatim>\<open>null\<close> throws; the callers below test
  for \<open>JNull\<close> first and take the \<^verbatim>\<open>catch\<close> branch there.
\<close>

fun member :: "json \<Rightarrow> string \<Rightarrow> json option" where
  "member (JObj kvs) k = map_of kvs k"
| "member v k = None"

text \<open>\<^verbatim>\<open>a || d\<close> for a member read \<open>a\<close> and a default \<open>d\<close>.\<close>

fun or_else :: "json option \<Rightarrow> json \<Rightarrow> json" where
  "or_else None d = d"
| "or_else (Some v) d = (if truthy (Some v) then v else d)"

text \<open>
  An inbound frame: its text (\<^verbatim>\<open>data.toString()\<close>) and what \<^verbatim>\<open>JSON.parse\<close> makes of that text,
  \<open>None\<close> when it throws a syntax error. The parser is the runtime's, not the repository's, so
  its result is carried with the frame.
\<close>

datatype frame = Frame (raw_text: string) (parsed: "json option")

text \<open>
  Error values. \<open>Error v\<close> is \<^verbatim>\<open>new Error(v)\<close>; for a string \<open>v\<close> its message is that string.
  \<open>TransportError c\<close> is an error value raised by the WebSocket, where \<open>c\<close> is the text that
  \<^verbatim>\<open>error.message || error\<close> interpolates to. \<open>TypeError\<close> is the runtime's error for a member
  read on \<^verbatim>\<open>undefined\<close> or \<^verbatim>\<open>null\<close>.
\<close>

datatype js_error = Error json | TransportError string | TypeError

subsection \<open>Decimal rendering of a number in a template string\<close>

definition digit :: "nat \<Rightarrow> char" where
  "digit d = char_of (48 + d)"

function show_nat :: "nat \<Rightarrow> string" where
  "show_nat n = (if n < 10 then [digit n] else show_nat (n div 10) @ [digit (n mod 10)])"
  by pat_completeness auto
termination
  by (relation "measure id") auto

declare show_nat.simps [simp del]

section \<open>The client object and its surroundings\<close>

text \<open>
  Handlers are the caller's functions; a handler is known by its identity, which is what
  \<^verbatim>\<open>indexOf\<close> compares. What a handler does when invoked is outside the repository. The
  model lets a handler do what bears on the loops that invoke it: call the subscription
  methods of the client, change the event object it was handed, and return or throw. Calls
  from inside a handler into the request and connection methods are left out.
\<close>

type_synonym handler = nat

text \<open>The \<^verbatim>\<open>console.error\<close> lines of the class. Informational \<^verbatim>\<open>console.log\<close> output is left out.\<close>

datatype log =
    ErrorInConnectHandler
  | ErrorInDisconnectHandler
  | ErrorInErrorHandler
  | ErrorInEventHandler json
  | FailedToParseMessage
  | FailedToParseResponse
  | WebSocketError string

text \<open>
  Everything the client does to the outside, in order: calls of a request promise's
  \<^verbatim>\<open>resolve\<close>/\<^verbatim>\<open>reject\<close> (a promise is named by a number), calls of the promise of a
  \<^verbatim>\<open>connect()\<close> attempt (named by its socket), handler invocations and error logging.
\<close>

datatype effect =
    Resolve nat "json option"
  | Reject nat js_error
  | ConnectResolve nat
  | ConnectReject nat js_error
  | ConnectCall handler
  | DisconnectCall handler
  | ErrorCall handler js_error
  | EventCall handler json
  | ConsoleError log

text \<open>Listeners for the socket's \<^verbatim>\<open>message\<close> notification: the one \<^verbatim>\<open>connect()\<close> installs, and the
  \<^verbatim>\<open>handleResponse\<close> closure of a request.\<close>

datatype listener = HandleMessage | HandleResponse nat

record socket =
  message_listeners :: "listener list"
  sent :: "string list"
  close_called :: bool

text \<open>Callbacks handed to \<^verbatim>\<open>setTimeout\<close>, with what they capture.\<close>

datatype timer = RequestTimer nat string | ConnectTimer nat

text \<open>An entry of \<^verbatim>\<open>pendingRequests\<close>: \<^verbatim>\<open>{ resolve, reject, timeout }\<close>.\<close>

record pending =
  resolve :: nat
  reject :: nat
  timeout :: nat

text \<open>
  The fields of \<^verbatim>\<open>WmClient\<close>, followed by the world it acts on: the sockets it has created
  (\<open>ws\<close> holds the index of one of them, or \<open>None\<close> for \<^verbatim>\<open>null\<close>), the timers that are armed, and
  the trace of effects. \<open>pendingRequests\<close> is a JavaScript \<^verbatim>\<open>Map\<close>, iterated in insertion
  order, hence an association list. \<open>messageId\<close> is a natural number; the double it is
  stored in is exact up to \<open>2 ^ 53\<close>.
\<close>

record wm_client =
  options_port :: nat
  options_timeout :: nat
  options_autoConnect :: bool
  ws :: "nat option"
  connected :: bool
  messageId :: nat
  pendingRequests :: "(nat \<times> pending) list"
  connectHandlers :: "handler list"
  disconnectHandlers :: "handler list"
  errorHandlers :: "handler list"
  eventSubscriptions :: "string \<rightharpoonup> handler list"
  sockets :: "socket list"
  timers :: "nat \<rightharpoonup> timer"
  nextTimer :: nat
  trace :: "effect list"

definition emit :: "effect list \<Rightarrow> wm_client \<Rightarrow> wm_client" where
  "emit es st = st\<lparr>trace := trace st @ es\<rparr>"

subsection \<open>Observers and subscriptions\<close>

definition onConnect :: "handler \<Rightarrow> wm_client \<Rightarrow> wm_client" where
  "onConnect h st = st\<lparr>connectHandlers := connectHandlers st @ [h]\<rparr>"

definition onDisconnect :: "handler \<Rightarrow> wm_client \<Rightarrow> wm_client" where
  "onDisconnect h st = st\<lparr>disconnectHandlers := disconnectHandlers st @ [h]\<rparr>"

definition onError :: "handler \<Rightarrow> wm_client \<Rightarrow> wm_client" where
  "onError h st = st\<lparr>errorHandlers := errorHandlers st @ [h]\<rparr>"

definition subscribe :: "string \<Rightarrow> handler \<Rightarrow> wm_client \<Rightarrow> wm_client" where
  "subscribe eventType h st =
     (let subs = (if eventSubscriptions st eventType = None
                  then (eventSubscriptions st)(eventType \<mapsto> [])
                  else eventSubscriptions st)
      in st\<lparr>eventSubscriptions :=
              subs(eventType \<mapsto> (case subs eventType of None \<Rightarrow> [] | Some hs \<Rightarrow> hs) @ [h])\<rparr>)"

text \<open>\<^verbatim>\<open>subscribeMany\<close> awaits each \<^verbatim>\<open>subscribe\<close> in turn; this is the client once all of them
  have run.\<close>

definition subscribeMany :: "string list \<Rightarrow> handler \<Rightarrow> wm_client \<Rightarrow> wm_client" where
  "subscribeMany eventTypes h st = fold (\<lambda>eventType. subscribe eventType h) eventTypes st"

text \<open>\<^verbatim>\<open>indexOf\<close> finds the first identical entry and \<^verbatim>\<open>splice(index, 1)\<close> removes it.\<close>

definition unsubscribe :: "string \<Rightarrow> handler \<Rightarrow> wm_client \<Rightarrow> wm_client" where
  "unsubscribe eventType h st =
     (case eventSubscriptions st eventType of
        None \<Rightarrow> st
      | Some hs \<Rightarrow> st\<lparr>eventSubscriptions := (eventSubscriptions st)(eventType \<mapsto> remove1 h hs)\<rparr>)"

definition unsubscribeAll :: "wm_client \<Rightarrow> wm_client" where
  "unsubscribeAll st = st\<lparr>eventSubscriptions := Map.empty\<rparr>"

text \<open>The handlers subscribed for a kind, in registration order; none when the kind has no list.\<close>

definition handlers_of :: "wm_client \<Rightarrow> string \<Rightarrow> handler list" where
  "handlers_of st kind = (case eventSubscriptions st kind of None \<Rightarrow> [] | Some hs \<Rightarrow> hs)"

subsection \<open>What handlers do\<close>

text \<open>
  The calls a handler makes into the client while it runs. \<^verbatim>\<open>subscribeMany\<close> suspends after
  its first \<^verbatim>\<open>subscribe\<close>, so what it does before the handler returns is that one
  \<^verbatim>\<open>subscribe\<close>.
\<close>

datatype call = Subscribe string handler | Unsubscribe string handler | UnsubscribeAll

fun perform :: "call \<Rightarrow> wm_client \<Rightarrow> wm_client" where
  "perform (Subscribe eventType h) st = subscribe eventType h st"
| "perform (Unsubscribe eventType h) st = unsubscribe eventType h st"
| "perform UnsubscribeAll st = unsubscribeAll st"

text \<open>Whether a call removes an entry of a kind, and whether it enters a handler for a kind.\<close>

fun unsubscribes_from :: "string \<Rightarrow> call \<Rightarrow> bool" where
  "unsubscribes_from kind (Unsubscribe eventType h) = (eventType = kind)"
| "unsubscribes_from kind c = False"


text \<open>
  For the notification being processed, a \<open>behaviour\<close> tells of every handler whether it
  throws, which calls it makes before it returns or throws, and what it leaves in the event
  object it was handed: \<open>mutating thr h ev\<close> is the content of the object after \<open>h\<close> ran on
  the content \<open>ev\<close>.
\<close>

record behaviour =
  throwing :: "handler \<Rightarrow> bool"
  calling :: "handler \<Rightarrow> call list"
  mutating :: "handler \<Rightarrow> json \<Rightarrow> json"

text \<open>
  \<^verbatim>\<open>handlers.forEach((handler) => { try { handler(...) } catch (error) { console.error(...) } })\<close>
  over one of the three observer lists. \<open>invocation h\<close> is the invocation of \<open>h\<close>, \<open>line\<close>
  what the \<^verbatim>\<open>catch\<close> logs. These lists are changed by \<^verbatim>\<open>onConnect\<close>, \<^verbatim>\<open>onDisconnect\<close> and
  \<^verbatim>\<open>onError\<close> only, which no handler calls here, so the loop walks the list as it found it.
\<close>

fun forEach_guarded :: "(handler \<Rightarrow> effect) \<Rightarrow> log \<Rightarrow> behaviour \<Rightarrow> handler list \<Rightarrow> wm_client \<Rightarrow> wm_client" where
  "forEach_guarded invocation line thr [] st = st"
| "forEach_guarded invocation line thr (h # hs) st =
     forEach_guarded invocation line thr hs
       (let st1 = fold perform (calling thr h) (emit [invocation h] st)
        in if throwing thr h then emit [ConsoleError line] st1 else st1)"

subsection \<open>Connection lifecycle\<close>

text \<open>
  \<^verbatim>\<open>cleanupPendingRequests\<close>: every entry has its timer cleared and its \<^verbatim>\<open>reject\<close> called, then
  the table is cleared; \<open>reject_entry\<close> is the body of the loop. The \<^verbatim>\<open>message\<close> listeners of
  the requests are left on their socket.
\<close>

definition reject_entry :: "nat \<times> pending \<Rightarrow> wm_client \<Rightarrow> wm_client" where
  "reject_entry entry st =
     (case entry of
        (requestId, p) \<Rightarrow> emit [Reject (reject p) (Error (JStr ''Connection closed''))]
                     (st\<lparr>timers := (timers st)(timeout p := None)\<rparr>))"

definition cleanupPendingRequests :: "wm_client \<Rightarrow> wm_client" where
  "cleanupPendingRequests st = (fold reject_entry (pendingRequests st) st)\<lparr>pendingRequests := []\<rparr>"

definition new_socket :: socket where
  "new_socket = \<lparr>message_listeners = [HandleMessage], sent = [], close_called = False\<rparr>"

text \<open>
  \<^verbatim>\<open>connect()\<close>: nothing when already connected; otherwise a new socket replaces \<open>ws\<close>, gets its
  four listeners, and a connection timer is started (it is never cleared).
\<close>

definition connect :: "wm_client \<Rightarrow> wm_client" where
  "connect st =
     (if connected st \<and> ws st \<noteq> None then st
      else st\<lparr>ws := Some (length (sockets st)),
              sockets := sockets st @ [new_socket],
              timers := (timers st)(nextTimer st \<mapsto> ConnectTimer (length (sockets st))),
              nextTimer := Suc (nextTimer st)\<rparr>)"

definition disconnect :: "wm_client \<Rightarrow> wm_client" where
  "disconnect st =
     cleanupPendingRequests
       (case ws st of
          None \<Rightarrow> st
        | Some sid \<Rightarrow>
            st\<lparr>sockets := (sockets st)[sid := (sockets st ! sid)\<lparr>close_called := True\<rparr>],
               ws := None,
               connected := False\<rparr>)"

definition isConnected :: "wm_client \<Rightarrow> bool" where
  "isConnected st = connected st"

text \<open>
  The constructor: defaults by \<^verbatim>\<open>||\<close> (a port or timeout of 0 is replaced too), the
  environment toggle \<^verbatim>\<open>GLAZEWm_DISABLE_AUTO_CONNECT\<close>, and the automatic first \<^verbatim>\<open>connect()\<close>.
\<close>

definition new_WmClient :: "nat option \<Rightarrow> nat option \<Rightarrow> bool option \<Rightarrow> string option \<Rightarrow> wm_client" where
  "new_WmClient port_opt timeout_opt autoConnect_opt env =
     (let disableAutoConnect = (env = Some ''true'' \<or> env = Some ''1'');
          auto = (autoConnect_opt \<noteq> Some False \<and> \<not> disableAutoConnect);
          st = \<lparr>options_port = (case port_opt of None \<Rightarrow> 6123 | Some p \<Rightarrow> if p \<noteq> 0 then p else 6123),
                options_timeout = (case timeout_opt of None \<Rightarrow> 10000 | Some t \<Rightarrow> if t \<noteq> 0 then t else 10000),
                options_autoConnect = auto,
                ws = None, connected = False, messageId = 0, pendingRequests = [],
                connectHandlers = [], disconnectHandlers = [], errorHandlers = [],
                eventSubscriptions = Map.empty,
                sockets = [], timers = Map.empty, nextTimer = 0, trace = []\<rparr>
      in if auto then connect st else st)"

subsection \<open>Requests\<close>

text \<open>\<^verbatim>\<open>if (this.ws) { this.ws.off("message", handleResponse) }\<close>: the listener is dropped from the
  socket \<open>ws\<close> refers to now. \<^verbatim>\<open>off\<close> removes one registration, the latest.\<close>

definition off :: "listener \<Rightarrow> listener list \<Rightarrow> listener list" where
  "off l ls = rev (remove1 l (rev ls))"

definition detach :: "nat \<Rightarrow> wm_client \<Rightarrow> wm_client" where
  "detach requestId st =
     (case ws st of
        None \<Rightarrow> st
      | Some sid \<Rightarrow>
          st\<lparr>sockets := (sockets st)[sid := (sockets st ! sid)
                \<lparr>message_listeners := off (HandleResponse requestId) (message_listeners (sockets st ! sid))\<rparr>]\<rparr>)"

text \<open>\<^verbatim>\<open>const pending = this.pendingRequests.get(requestId); if (pending) { clearTimeout(pending.timeout);
  this.pendingRequests.delete(requestId) }\<close>\<close>

definition clear_pending :: "nat \<Rightarrow> wm_client \<Rightarrow> wm_client" where
  "clear_pending requestId st =
     (case map_of (pendingRequests st) requestId of
        None \<Rightarrow> st
      | Some p \<Rightarrow> st\<lparr>timers := (timers st)(timeout p := None),
                      pendingRequests := AList.delete requestId (pendingRequests st)\<rparr>)"

text \<open>
  The closure \<^verbatim>\<open>handleResponse\<close> of request \<open>requestId\<close>, run on a frame. The \<^verbatim>\<open>try\<close> branch
  parses, detaches, clears the entry and settles by \<^verbatim>\<open>response.success\<close>; whatever throws in it
  (the parser, or the member read on \<^verbatim>\<open>null\<close>) lands in the \<^verbatim>\<open>catch\<close> branch, which detaches,
  clears the entry and resolves with the raw text. \<^verbatim>\<open>resolve\<close> and \<^verbatim>\<open>reject\<close> are called whether
  or not the entry was still in the table.
\<close>

definition handleResponse :: "nat \<Rightarrow> frame \<Rightarrow> wm_client \<Rightarrow> wm_client" where
  "handleResponse requestId f st =
     (let catch = (\<lambda>s. emit [ConsoleError FailedToParseResponse, Resolve requestId (Some (JStr (raw_text f)))]
                          (clear_pending requestId (detach requestId s)))
      in case parsed f of
           None \<Rightarrow> catch st
         | Some response \<Rightarrow>
             (let st1 = clear_pending requestId (detach requestId st)
              in if response = JNull then catch st1
                 else if truthy (member response ''success'')
                 then emit [Resolve requestId (member response ''data'')] st1
                 else emit [Reject requestId (Error (or_else (member response ''error'') (JStr ''Command failed'')))] st1))"

text \<open>
  \<^verbatim>\<open>sendRequest(command)\<close>. \<open>Inl\<close> is the error the call throws (the returned promise is rejected
  with it at once); \<open>Inr\<close> is the identifier of the request whose promise is now pending.
  Sending is recorded on the socket; what the transport does with a frame it cannot send is
  not part of the class.
\<close>

definition sendRequest :: "string \<Rightarrow> wm_client \<Rightarrow> (js_error + nat) \<times> wm_client" where
  "sendRequest command st =
     (case ws st of
        None \<Rightarrow> (Inl (Error (JStr ''Not connected to GlazeWM IPC'')), st)
      | Some sid \<Rightarrow>
          if \<not> connected st then (Inl (Error (JStr ''Not connected to GlazeWM IPC'')), st)
          else
            (let requestId = messageId st;
                 t = nextTimer st;
                 sock = sockets st ! sid
             in (Inr requestId,
                 st\<lparr>messageId := Suc requestId,
                    timers := (timers st)(t \<mapsto> RequestTimer requestId command),
                    nextTimer := Suc t,
                    pendingRequests :=
                      AList.update requestId \<lparr>resolve = requestId, reject = requestId, timeout = t\<rparr>
                        (pendingRequests st),
                    sockets := (sockets st)[sid := sock
                      \<lparr>message_listeners := message_listeners sock @ [HandleResponse requestId],
                       sent := sent sock @ [command]\<rparr>]\<rparr>)))"

definition queryMonitors :: "wm_client \<Rightarrow> (js_error + nat) \<times> wm_client" where
  "queryMonitors st = sendRequest ''query monitors'' st"

definition queryWorkspaces :: "wm_client \<Rightarrow> (js_error + nat) \<times> wm_client" where
  "queryWorkspaces st = sendRequest ''query workspaces'' st"

definition queryWindows :: "wm_client \<Rightarrow> (js_error + nat) \<times> wm_client" where
  "queryWindows st = sendRequest ''query windows'' st"

definition queryFocused :: "wm_client \<Rightarrow> (js_error + nat) \<times> wm_client" where
  "queryFocused st = sendRequest ''query focused'' st"

definition runCommand :: "string \<Rightarrow> string option \<Rightarrow> wm_client \<Rightarrow> (js_error + nat) \<times> wm_client" where
  "runCommand command subject st =
     sendRequest
       (case subject of
          None \<Rightarrow> ''command '' @ command
        | Some s \<Rightarrow> if s \<noteq> [] then ''command --id '' @ s @ '' '' @ command else ''command '' @ command)
       st"

text \<open>What a query does with the value its request resolved to: \<^verbatim>\<open>response.monitors || response\<close>
  and its three siblings, with the member name as \<open>key\<close>.\<close>

definition query_result :: "string \<Rightarrow> json option \<Rightarrow> js_error + json option" where
  "query_result key response =
     (case response of
        None \<Rightarrow> Inl TypeError
      | Some JNull \<Rightarrow> Inl TypeError
      | Some v \<Rightarrow> Inr (if truthy (member v key) then member v key else Some v))"

subsection \<open>Inbound frames and events\<close>

text \<open>Own enumerable members copied by \<^verbatim>\<open>...data\<close> in an object literal.\<close>

fun spread :: "json \<Rightarrow> (string \<times> json) list" where
  "spread (JObj kvs) = kvs"
| "spread (JArr xs) = zip (map show_nat [0..<length xs]) xs"
| "spread (JStr s) = zip (map show_nat [0..<length s]) (map (\<lambda>c. JStr [c]) s)"
| "spread v = []"

text \<open>\<^verbatim>\<open>{ type: wmEventType, timestamp: Date.now(), ...data }\<close>: the members of \<open>data\<close> are written
  over the two the dispatcher supplies. \<open>now\<close> is the clock reading.\<close>

definition event_object :: "json \<Rightarrow> int \<Rightarrow> json \<Rightarrow> json" where
  "event_object eventType now data =
     JObj (AList.merge [(''type'', eventType), (''timestamp'', JNum now)] (spread data))"

text \<open>
  The loop of \<^verbatim>\<open>emitEvent\<close> walks the array object the map held for the kind when the
  dispatch began, and the handlers it invokes can change that array. \<^verbatim>\<open>subscribe\<close> and
  \<^verbatim>\<open>unsubscribe\<close> change the very array the map holds for the kind; \<^verbatim>\<open>unsubscribeAll\<close> clears
  the map and leaves the array as it is, and a \<^verbatim>\<open>subscribe\<close> after that creates another
  array. So the walked array is the map's list for the kind until the first
  \<^verbatim>\<open>unsubscribeAll\<close> of the dispatch, and from then on it keeps the content it had at that
  moment: \<open>frozen\<close> is \<open>None\<close> before and that content after.
\<close>

definition walked_array :: "string \<Rightarrow> handler list option \<Rightarrow> wm_client \<Rightarrow> handler list" where
  "walked_array kind frozen st = (case frozen of None \<Rightarrow> handlers_of st kind | Some hs \<Rightarrow> hs)"

definition call_during_walk ::
    "string \<Rightarrow> call \<Rightarrow> handler list option \<times> wm_client \<Rightarrow> handler list option \<times> wm_client" where
  "call_during_walk kind c walk_state =
     (case walk_state of
        (frozen, st) \<Rightarrow>
          (if frozen = None \<and> c = UnsubscribeAll then Some (handlers_of st kind) else frozen,
           perform c st))"

text \<open>
  \<^verbatim>\<open>handlers.forEach(...)\<close> of \<^verbatim>\<open>emitEvent\<close>: \<^verbatim>\<open>forEach\<close> reads the length once, before the
  first call (\<open>n\<close> counts the indices still to visit), and at each index \<open>k\<close> invokes the
  element found there now, or nothing when the array has become too short. Every handler is
  handed the same event object, whose content is \<open>ev\<close>, inside \<^verbatim>\<open>try\<close>/\<^verbatim>\<open>catch\<close>.
\<close>

fun walk :: "behaviour \<Rightarrow> string \<Rightarrow> nat \<Rightarrow> nat \<Rightarrow> json \<Rightarrow> handler list option \<Rightarrow> wm_client \<Rightarrow> wm_client" where
  "walk thr kind k 0 ev frozen st = st"
| "walk thr kind k (Suc n) ev frozen st =
     (if k < length (walked_array kind frozen st)
      then (let h = walked_array kind frozen st ! k;
                after = fold (call_during_walk kind) (calling thr h) (frozen, emit [EventCall h ev] st);
                st1 = (if throwing thr h
                       then emit [ConsoleError (ErrorInEventHandler (JStr kind))] (snd after)
                       else snd after)
            in walk thr kind (Suc k) n (mutating thr h ev) (fst after) st1)
      else walk thr kind (Suc k) n ev frozen st)"

text \<open>\<^verbatim>\<open>emitEvent(eventType, data)\<close>. The keys of the map are strings, so an \<open>eventType\<close> that is
  not a string finds no handlers.\<close>

definition emitEvent :: "behaviour \<Rightarrow> int \<Rightarrow> json \<Rightarrow> json \<Rightarrow> wm_client \<Rightarrow> wm_client" where
  "emitEvent thr now eventType data st =
     (case eventType of
        JStr kind \<Rightarrow>
          (case eventSubscriptions st kind of
             None \<Rightarrow> st
           | Some hs \<Rightarrow>
               if length hs > 0
               then walk thr kind 0 (length hs) (event_object eventType now data) None st
               else st)
      | _ \<Rightarrow> st)"

text \<open>The condition of \<^verbatim>\<open>handleMessage\<close>: \<^verbatim>\<open>message.type && message.data\<close>.\<close>

definition is_event :: "json \<Rightarrow> bool" where
  "is_event message = (truthy (member message ''type'') \<and> truthy (member message ''data''))"

definition handleMessage :: "behaviour \<Rightarrow> int \<Rightarrow> frame \<Rightarrow> wm_client \<Rightarrow> wm_client" where
  "handleMessage thr now f st =
     (case parsed f of
        None \<Rightarrow> emit [ConsoleError FailedToParseMessage] st
      | Some message \<Rightarrow>
          if message = JNull then emit [ConsoleError FailedToParseMessage] st
          else if is_event message
          then (case (member message ''type'', member message ''data'') of
                  (Some ty, Some d) \<Rightarrow> emitEvent thr now ty d st
                | _ \<Rightarrow> st)
          else st)"

subsection \<open>Notifications from the socket and from timers\<close>

text \<open>
  The socket \<open>sid\<close> emits \<^verbatim>\<open>message\<close>: its listeners run in registration order, over the list
  as it was when the notification began (a listener removed meanwhile still runs).
\<close>

definition run_listener :: "behaviour \<Rightarrow> int \<Rightarrow> frame \<Rightarrow> listener \<Rightarrow> wm_client \<Rightarrow> wm_client" where
  "run_listener thr now f l st =
     (case l of
        HandleMessage \<Rightarrow> handleMessage thr now f st
      | HandleResponse requestId \<Rightarrow> handleResponse requestId f st)"

definition ws_message :: "nat \<Rightarrow> behaviour \<Rightarrow> int \<Rightarrow> frame \<Rightarrow> wm_client \<Rightarrow> wm_client" where
  "ws_message sid thr now f st =
     (if sid < length (sockets st)
      then fold (run_listener thr now f) (message_listeners (sockets st ! sid)) st
      else st)"

definition ws_open :: "nat \<Rightarrow> behaviour \<Rightarrow> wm_client \<Rightarrow> wm_client" where
  "ws_open sid thr st =
     (if sid < length (sockets st)
      then emit [ConnectResolve sid]
             (forEach_guarded ConnectCall ErrorInConnectHandler thr (connectHandlers st)
                (st\<lparr>connected := True\<rparr>))
      else st)"

definition ws_error :: "nat \<Rightarrow> string \<Rightarrow> behaviour \<Rightarrow> wm_client \<Rightarrow> wm_client" where
  "ws_error sid cause thr st =
     (if sid < length (sockets st)
      then emit [ConnectReject sid (Error (JStr (''Failed to connect to GlazeWM IPC: '' @ cause)))]
             (forEach_guarded (\<lambda>h. ErrorCall h (TransportError cause)) ErrorInErrorHandler thr
                (errorHandlers st) (emit [ConsoleError (WebSocketError cause)] st))
      else st)"

definition ws_close :: "nat \<Rightarrow> behaviour \<Rightarrow> wm_client \<Rightarrow> wm_client" where
  "ws_close sid thr st =
     (if sid < length (sockets st)
      then cleanupPendingRequests
             (forEach_guarded DisconnectCall ErrorInDisconnectHandler thr (disconnectHandlers st)
                (st\<lparr>connected := False\<rparr>))
      else st)"

definition connection_timeout :: js_error where
  "connection_timeout = Error (JStr ''Connection timeout - Make sure GlazeWM is running and IPC is enabled'')"

definition request_timeout :: "nat \<Rightarrow> string \<Rightarrow> js_error" where
  "request_timeout ms command = Error (JStr (''Request timeout after '' @ show_nat ms @ ''ms: '' @ command))"

text \<open>
  The timer with handle \<open>t\<close> goes off. A cleared timer does nothing. A request's timer detaches
  the request's listener, deletes the entry and rejects; the connection timer reports only
  while the client is not connected.
\<close>

definition timer_fires :: "nat \<Rightarrow> behaviour \<Rightarrow> wm_client \<Rightarrow> wm_client" where
  "timer_fires t thr st =
     (case timers st t of
        None \<Rightarrow> st
      | Some (RequestTimer requestId command) \<Rightarrow>
          (let st1 = detach requestId (st\<lparr>timers := (timers st)(t := None)\<rparr>);
               st2 = st1\<lparr>pendingRequests := AList.delete requestId (pendingRequests st1)\<rparr>
           in emit [Reject requestId (request_timeout (options_timeout st2) command)] st2)
      | Some (ConnectTimer sid) \<Rightarrow>
          (let st1 = st\<lparr>timers := (timers st)(t := None)\<rparr>
           in if \<not> connected st1
              then emit [ConnectReject sid connection_timeout]
                     (forEach_guarded (\<lambda>h. ErrorCall h connection_timeout) ErrorInErrorHandler thr
                        (errorHandlers st1) st1)
              else st1))"

section \<open>Reading the trace\<close>

text \<open>The calls of \<^verbatim>\<open>resolve\<close> and \<^verbatim>\<open>reject\<close> of the promise of request \<open>r\<close>.\<close>

fun settles :: "nat \<Rightarrow> effect \<Rightarrow> bool" where
  "settles r (Resolve i v) = (i = r)"
| "settles r (Reject i e) = (i = r)"
| "settles r other = False"


text \<open>The handler an effect invokes, and the event object it hands over.\<close>

fun invoked :: "effect \<Rightarrow> handler option" where
  "invoked (EventCall h ev) = Some h"
| "invoked other = None"

fun carried :: "effect \<Rightarrow> json option" where
  "carried (EventCall h ev) = Some ev"
| "carried other = None"

text \<open>
  One guarded invocation for each entry of \<open>hs\<close>, in the order of \<open>hs\<close>: the entry is called
  with the event object as the calls before it left it, and a line is logged when it throws.
  This is what the dispatch is compared with below.
\<close>

fun one_call_each :: "behaviour \<Rightarrow> string \<Rightarrow> json \<Rightarrow> handler list \<Rightarrow> effect list" where
  "one_call_each thr kind ev [] = []"
| "one_call_each thr kind ev (h # hs) =
     EventCall h ev
     # (if throwing thr h then [ConsoleError (ErrorInEventHandler (JStr kind))] else [])
     @ one_call_each thr kind (mutating thr h ev) hs"

section \<open>Concrete runs\<close>

text \<open>No handler throws, calls into the client or changes the event object.\<close>

definition no_throw :: behaviour where
  "no_throw = \<lparr>throwing = (\<lambda>h. False), calling = (\<lambda>h. []), mutating = (\<lambda>h ev. ev)\<rparr>"

text \<open>\<^verbatim>\<open>new WmClient({ timeout: 50, autoConnect: false })\<close>, then \<^verbatim>\<open>connect()\<close>, and the socket opens.\<close>

definition connected_client :: wm_client where
  "connected_client = ws_open 0 no_throw (connect (new_WmClient None (Some 50) (Some False) None))"

text \<open>\<^verbatim>\<open>queryMonitors()\<close> on that client: request 0 is outstanding, its timer has handle 1.\<close>

definition pending_query :: wm_client where
  "pending_query = snd (queryMonitors connected_client)"

text \<open>Inbound frames used below.\<close>

definition monitors_frame :: frame where
  \<open>monitors_frame =
     Frame ''{"success":true,"data":{"monitors":[]}}''
       (Some (JObj [(''success'', JBool True), (''data'', JObj [(''monitors'', JArr [])])]))\<close>

definition error_frame :: frame where
  \<open>error_frame =
     Frame ''{"success":false,"error":"unknown command"}''
       (Some (JObj [(''success'', JBool False), (''error'', JStr ''unknown command'')]))\<close>

definition no_error_frame :: frame where
  \<open>no_error_frame = Frame ''{"success":false}'' (Some (JObj [(''success'', JBool False)]))\<close>

definition empty_error_frame :: frame where
  \<open>empty_error_frame =
     Frame ''{"success":false,"error":""}''
       (Some (JObj [(''success'', JBool False), (''error'', JStr [])]))\<close>

definition garbage_frame :: frame where
  "garbage_frame = Frame ''not json'' None"

definition focus_frame :: frame where
  \<open>focus_frame =
     Frame ''{"type":"focus_changed","data":{"focusedContainer":{"id":"w1"}}}''
       (Some (JObj [(''type'', JStr ''focus_changed''),
                    (''data'', JObj [(''focusedContainer'', JObj [(''id'', JStr ''w1'')])])]))\<close>

definition falsy_data_frame :: frame where
  \<open>falsy_data_frame =
     Frame ''{"type":"focus_changed","data":false}''
       (Some (JObj [(''type'', JStr ''focus_changed''), (''data'', JBool False)]))\<close>

definition tagged_payload_frame :: frame where
  \<open>tagged_payload_frame =
     Frame ''{"type":"focus_changed","data":{"type":"window","timestamp":1}}''
       (Some (JObj [(''type'', JStr ''focus_changed''),
                    (''data'', JObj [(''type'', JStr ''window''), (''timestamp'', JNum 1)])]))\<close>

text \<open>Two requests outstanding on the connected client.\<close>

definition two_pending :: wm_client where
  "two_pending = snd (queryWorkspaces pending_query)"

text \<open>Handler 7 subscribed to \<^verbatim>\<open>focus_changed\<close> on the connected client, once and twice.\<close>

definition subscribed_client :: wm_client where
  "subscribed_client = subscribe ''focus_changed'' 7 connected_client"

definition twice_subscribed :: wm_client where
  "twice_subscribed = subscribe ''focus_changed'' 7 subscribed_client"

text \<open>
  \<^verbatim>\<open>new WmClient()\<close> connects on its own (socket 0); \<^verbatim>\<open>connect()\<close> called before that socket has
  opened finds \<open>connected\<close> false and creates socket 1, which \<open>ws\<close> now refers to. Both open.
  This is the sequence of \<^verbatim>\<open>testIPCConnection\<close> and of the example in the class comment.
\<close>

definition two_sockets :: wm_client where
  "two_sockets = ws_open 1 no_throw (ws_open 0 no_throw (connect (new_WmClient None None None None)))"

text \<open>\<^verbatim>\<open>queryMonitors()\<close> goes out on socket 1; socket 0 closes; the answer arrives on socket 1.\<close>

definition stale_listener_run :: wm_client where
  "stale_listener_run =
     ws_message 1 no_throw 0 monitors_frame (ws_close 0 no_throw (snd (queryMonitors two_sockets)))"

text \<open>One socket: \<^verbatim>\<open>queryMonitors()\<close>, then \<^verbatim>\<open>disconnect()\<close>, then a frame on the closing socket.\<close>

definition disconnect_run :: wm_client where
  "disconnect_run = ws_message 0 no_throw 0 monitors_frame (disconnect pending_query)"

text \<open>One socket: the request's timer goes off, then the answer arrives.\<close>

definition timeout_run :: wm_client where
  "timeout_run = ws_message 0 no_throw 0 monitors_frame (timer_fires 1 no_throw pending_query)"

text \<open>Handlers 7, 8 and 9 subscribed to \<^verbatim>\<open>focus_changed\<close>, in this order.\<close>

definition three_subscribers :: wm_client where
  "three_subscribers = subscribe ''focus_changed'' 9 (subscribe ''focus_changed'' 8 subscribed_client)"

text \<open>Handlers 7 and 8 subscribed to \<^verbatim>\<open>focus_changed\<close>, in this order.\<close>

definition two_subscribers :: wm_client where
  "two_subscribers = subscribe ''focus_changed'' 8 subscribed_client"



text \<open>Handler 7 unsubscribes itself when it is invoked, as a handler meant to run once does.\<close>

definition runs_once :: behaviour where
  "runs_once = \<lparr>throwing = (\<lambda>h. False),
                 calling = (\<lambda>h. if h = 7 then [Unsubscribe ''focus_changed'' 7] else []),
                 mutating = (\<lambda>h ev. ev)\<rparr>"

text \<open>Handler 7 subscribes handler 9 to \<^verbatim>\<open>workspace_activated\<close>, overwrites the \<^verbatim>\<open>type\<close> member
  of the event object and throws.\<close>

definition busy_first :: behaviour where
  "busy_first = \<lparr>throwing = (\<lambda>h. h = 7),
                  calling = (\<lambda>h. if h = 7 then [Subscribe ''workspace_activated'' 9] else []),
                  mutating = (\<lambda>h ev. if h = 7 then JObj (AList.update ''type'' (JStr ''seen'') (spread ev)) else ev)\<rparr>"


section \<open>Properties\<close>

subsection \<open>Auxiliary facts\<close>

text \<open>The loop of \<^verbatim>\<open>cleanupPendingRequests\<close> in closed form.\<close>

lemma fold_reject_entry:
  "fold reject_entry ps st
     = st\<lparr>timers := timers st |` (- (timeout \<circ> snd) ` set ps),
          trace := trace st @ map (\<lambda>(requestId, p). Reject (reject p) (Error (JStr ''Connection closed''))) ps\<rparr>"
proof (induction ps arbitrary: st)
  case Nil
  then show ?case by simp
next
  case (Cons a ps)
  have "fold reject_entry (a # ps) st = fold reject_entry ps (reject_entry a st)"
    by simp
  also have "\<dots> = (reject_entry a st)
      \<lparr>timers := timers (reject_entry a st) |` (- (timeout \<circ> snd) ` set ps),
       trace := trace (reject_entry a st)
                @ map (\<lambda>(requestId, p). Reject (reject p) (Error (JStr ''Connection closed''))) ps\<rparr>"
    by (rule Cons.IH)
  also have "\<dots> = st
      \<lparr>timers := timers st |` (- (timeout \<circ> snd) ` set (a # ps)),
       trace := trace st
                @ map (\<lambda>(requestId, p). Reject (reject p) (Error (JStr ''Connection closed''))) (a # ps)\<rparr>"
    by (cases a) (auto simp: reject_entry_def emit_def restrict_map_def fun_eq_iff)
  finally show ?case .
qed

lemma cleanupPendingRequests_eq:
  "cleanupPendingRequests st =
     st\<lparr>timers := timers st |` (- (timeout \<circ> snd) ` set (pendingRequests st)),
        trace := trace st @ map (\<lambda>(requestId, p). Reject (reject p) (Error (JStr ''Connection closed'')))
                              (pendingRequests st),
        pendingRequests := []\<rparr>"
  by (simp add: cleanupPendingRequests_def fold_reject_entry)

lemma cleanupPendingRequests_empty:
  "pendingRequests st = [] \<Longrightarrow> cleanupPendingRequests st = st"
  by (simp add: cleanupPendingRequests_def)

text \<open>Bulk cancellation leaves every socket, and so every \<^verbatim>\<open>handleResponse\<close> listener, as it was.\<close>

lemma cleanupPendingRequests_keeps_listeners:
  "sockets (cleanupPendingRequests st) = sockets st"
  by (simp add: cleanupPendingRequests_eq)

lemma map_of_delete_self: "map_of (AList.delete k xs) k = None"
  by (simp add: AList.delete_conv)

text \<open>What \<^verbatim>\<open>sendRequest\<close> registers for the request it issues.\<close>

lemma sendRequest_registers:
  assumes "sendRequest command st = (Inr r, st')"
  shows "r = messageId st"
    and "timers st' (nextTimer st) = Some (RequestTimer r command)"
    and "map_of (pendingRequests st') r = Some \<lparr>resolve = r, reject = r, timeout = nextTimer st\<rparr>"
  using assms
  by (auto simp: sendRequest_def Let_def update_conv' split: option.splits if_splits)

subsection \<open>The dispatch loop\<close>

lemma trace_perform: "trace (perform c st) = trace st"
  by (cases c) (simp_all add: subscribe_def unsubscribe_def unsubscribeAll_def Let_def split: option.splits)

lemma handlers_of_emit: "handlers_of (emit es st) kind = handlers_of st kind"
  by (simp add: handlers_of_def emit_def)

lemma handlers_of_subscribe:
  "handlers_of (subscribe k h st) kind = handlers_of st kind @ (if k = kind then [h] else [])"
  by (auto simp: subscribe_def handlers_of_def Let_def split: option.splits)

lemma handlers_of_unsubscribe:
  "handlers_of (unsubscribe k h st) kind =
     (if k = kind then remove1 h (handlers_of st kind) else handlers_of st kind)"
  by (auto simp: unsubscribe_def handlers_of_def split: option.splits)


lemma walked_array_emit: "walked_array kind frozen (emit es st) = walked_array kind frozen st"
  by (cases frozen) (simp_all add: walked_array_def handlers_of_emit)

lemma trace_calls:
  "trace (snd (fold (call_during_walk kind) cs (frozen, st))) = trace st"
proof (induction cs arbitrary: frozen st)
  case Nil
  then show ?case by simp
next
  case (Cons c cs)
  show ?case
    by (simp add: call_during_walk_def [of kind c] Cons.IH trace_perform)
qed

text \<open>Calls other than an unsubscribe for the kind only add entries at the end of the walked array.\<close>

lemma call_extends:
  assumes "\<not> unsubscribes_from kind c"
  shows "\<exists>zs. walked_array kind (fst (call_during_walk kind c (frozen, st)))
                 (snd (call_during_walk kind c (frozen, st)))
              = walked_array kind frozen st @ zs"
proof (cases c)
  case (Subscribe k h)
  then show ?thesis
    by (cases frozen) (simp_all add: call_during_walk_def walked_array_def handlers_of_subscribe)
next
  case (Unsubscribe k h)
  with assms have "k \<noteq> kind" by auto
  with Unsubscribe show ?thesis
    by (cases frozen) (simp_all add: call_during_walk_def walked_array_def handlers_of_unsubscribe)
next
  case UnsubscribeAll
  then show ?thesis
    by (cases frozen) (simp_all add: call_during_walk_def walked_array_def)
qed

lemma calls_extend:
  assumes "\<forall>c \<in> set cs. \<not> unsubscribes_from kind c"
  shows "\<exists>zs. walked_array kind (fst (fold (call_during_walk kind) cs (frozen, st)))
                 (snd (fold (call_during_walk kind) cs (frozen, st)))
              = walked_array kind frozen st @ zs"
  using assms
proof (induction cs arbitrary: frozen st)
  case Nil
  then show ?case by simp
next
  case (Cons c cs)
  obtain frozen1 st1 where s1: "call_during_walk kind c (frozen, st) = (frozen1, st1)"
    by (cases "call_during_walk kind c (frozen, st)")
  have "\<not> unsubscribes_from kind c"
    using Cons.prems by simp
  from call_extends [OF this, where frozen = frozen and st = st] s1
  obtain zs where z: "walked_array kind frozen1 st1 = walked_array kind frozen st @ zs"
    by auto
  have "\<forall>c \<in> set cs. \<not> unsubscribes_from kind c"
    using Cons.prems by simp
  from Cons.IH [OF this, of frozen1 st1]
  obtain zs' where "walked_array kind (fst (fold (call_during_walk kind) cs (frozen1, st1)))
                 (snd (fold (call_during_walk kind) cs (frozen1, st1)))
              = walked_array kind frozen1 st1 @ zs'"
    by auto
  with z s1 show ?case by simp
qed

text \<open>The walk in closed form, when no invoked handler unsubscribes from the kind.\<close>

lemma walk_one_call_each:
  assumes "walked_array kind frozen st = pre @ hs @ ys"
    and "length pre = k"
    and "\<forall>g \<in> set hs. \<forall>c \<in> set (calling thr g). \<not> unsubscribes_from kind c"
  shows "trace (walk thr kind k (length hs) ev frozen st) = trace st @ one_call_each thr kind ev hs"
  using assms
proof (induction hs arbitrary: pre k ev frozen st ys)
  case Nil
  then show ?case by simp
next
  case (Cons h hs)
  let ?after = "fold (call_during_walk kind) (calling thr h) (frozen, emit [EventCall h ev] st)"
  let ?st1 = "if throwing thr h
              then emit [ConsoleError (ErrorInEventHandler (JStr kind))] (snd ?after)
              else snd ?after"
  have k: "k < length (walked_array kind frozen st)" and h: "walked_array kind frozen st ! k = h"
    using Cons.prems(1,2) by (auto simp: nth_append)
  have step: "walk thr kind k (length (h # hs)) ev frozen st =
      walk thr kind (Suc k) (length hs) (mutating thr h ev) (fst ?after) ?st1"
    using k h by (simp add: Let_def)
  have "\<forall>c \<in> set (calling thr h). \<not> unsubscribes_from kind c"
    using Cons.prems(3) by simp
  from calls_extend [OF this, where frozen = frozen and st = "emit [EventCall h ev] st"]
  obtain zs where "walked_array kind (fst ?after) (snd ?after) = walked_array kind frozen st @ zs"
    by (auto simp: walked_array_emit)
  then have w: "walked_array kind (fst ?after) ?st1 = (pre @ [h]) @ hs @ (ys @ zs)"
    using Cons.prems(1) by (simp add: walked_array_emit)
  have l: "length (pre @ [h]) = Suc k"
    using Cons.prems(2) by simp
  have p: "\<forall>g \<in> set hs. \<forall>c \<in> set (calling thr g). \<not> unsubscribes_from kind c"
    using Cons.prems(3) by simp
  have t: "trace ?st1 = trace st @ EventCall h ev
             # (if throwing thr h then [ConsoleError (ErrorInEventHandler (JStr kind))] else [])"
    by (simp add: emit_def trace_calls)
  show ?case
    unfolding step Cons.IH [OF w l p] t by simp
qed

lemma walk_settles:
  "filter (settles r) (trace (walk thr kind k n ev frozen st)) = filter (settles r) (trace st)"
proof (induction n arbitrary: k ev frozen st)
  case 0
  then show ?case by simp
next
  case (Suc n)
  show ?case
    by (simp add: Let_def Suc.IH emit_def trace_calls)
qed

lemma walk_extends_trace:
  "\<exists>es. trace (walk thr kind k n ev frozen st) = trace st @ es"
proof (induction n arbitrary: k ev frozen st)
  case 0
  then show ?case by simp
next
  case (Suc n)
  show ?case
  proof (cases "k < length (walked_array kind frozen st)")
    case False
    then show ?thesis using Suc.IH by simp
  next
    case True
    let ?h = "walked_array kind frozen st ! k"
    let ?after = "fold (call_during_walk kind) (calling thr ?h) (frozen, emit [EventCall ?h ev] st)"
    let ?st1 = "if throwing thr ?h
                then emit [ConsoleError (ErrorInEventHandler (JStr kind))] (snd ?after)
                else snd ?after"
    obtain es where "trace (walk thr kind (Suc k) n (mutating thr ?h ev) (fst ?after) ?st1) = trace ?st1 @ es"
      using Suc.IH by blast
    moreover have "\<exists>es'. trace ?st1 = trace st @ es'"
      by (simp add: emit_def trace_calls)
    ultimately show ?thesis
      using True by (auto simp: Let_def)
  qed
qed

text \<open>The first entry of the list is invoked first, with the object as it was built.\<close>

lemma walk_first:
  assumes "walked_array kind frozen st = h # hs"
  shows "\<exists>es. trace (walk thr kind 0 (Suc n) ev frozen st) = trace st @ EventCall h ev # es"
proof -
  let ?after = "fold (call_during_walk kind) (calling thr h) (frozen, emit [EventCall h ev] st)"
  let ?st1 = "if throwing thr h
              then emit [ConsoleError (ErrorInEventHandler (JStr kind))] (snd ?after)
              else snd ?after"
  have step: "walk thr kind 0 (Suc n) ev frozen st =
      walk thr kind (Suc 0) n (mutating thr h ev) (fst ?after) ?st1"
    using assms by (simp add: Let_def)
  obtain es where "trace (walk thr kind (Suc 0) n (mutating thr h ev) (fst ?after) ?st1) = trace ?st1 @ es"
    using walk_extends_trace by blast
  moreover have "\<exists>es'. trace ?st1 = trace st @ EventCall h ev # es'"
    by (simp add: emit_def trace_calls)
  ultimately show ?thesis
    unfolding step by auto
qed

text \<open>While no handler changes the event object, every invocation hands over the same content.\<close>

lemma walk_carried:
  assumes "\<forall>g. mutating thr g ev = ev"
  shows "\<exists>es. trace (walk thr kind k n ev frozen st) = trace st @ es
             \<and> set (List.map_filter carried es) \<subseteq> {ev}"
proof (induction n arbitrary: k frozen st)
  case 0
  then show ?case by (simp add: List.map_filter_def)
next
  case (Suc n)
  show ?case
  proof (cases "k < length (walked_array kind frozen st)")
    case False
    then show ?thesis using Suc.IH by simp
  next
    case True
    let ?h = "walked_array kind frozen st ! k"
    let ?after = "fold (call_during_walk kind) (calling thr ?h) (frozen, emit [EventCall ?h ev] st)"
    let ?st1 = "if throwing thr ?h
                then emit [ConsoleError (ErrorInEventHandler (JStr kind))] (snd ?after)
                else snd ?after"
    have step: "walk thr kind k (Suc n) ev frozen st =
        walk thr kind (Suc k) n ev (fst ?after) ?st1"
      using True assms by (simp add: Let_def)
    obtain es where es: "trace (walk thr kind (Suc k) n ev (fst ?after) ?st1) = trace ?st1 @ es"
        "set (List.map_filter carried es) \<subseteq> {ev}"
      using Suc.IH by blast
    have t: "trace ?st1 = trace st @ EventCall ?h ev
             # (if throwing thr ?h then [ConsoleError (ErrorInEventHandler (JStr kind))] else [])"
      by (simp add: emit_def trace_calls)
    have "trace (walk thr kind (Suc k) n ev (fst ?after) ?st1) = trace st @ (EventCall ?h ev
             # (if throwing thr ?h then [ConsoleError (ErrorInEventHandler (JStr kind))] else []) @ es)"
      using es(1) t by simp
    moreover have "set (List.map_filter carried (EventCall ?h ev
             # (if throwing thr ?h then [ConsoleError (ErrorInEventHandler (JStr kind))] else []) @ es)) \<subseteq> {ev}"
      using es(2) by (auto simp: List.map_filter_def)
    ultimately show ?thesis
      unfolding step by blast
  qed
qed




lemma map_filter_append:
  "List.map_filter f (xs @ ys) = List.map_filter f xs @ List.map_filter f ys"
  by (simp add: List.map_filter_def)

lemma invoked_one_call_each:
  "List.map_filter invoked (one_call_each thr kind ev hs) = hs"
  by (induction hs arbitrary: ev) (simp_all add: List.map_filter_def)


text \<open>Event dispatch never calls a request's \<^verbatim>\<open>resolve\<close> or \<^verbatim>\<open>reject\<close>.\<close>

lemma emitEvent_settles:
  "filter (settles r) (trace (emitEvent thr now ty d st)) = filter (settles r) (trace st)"
  by (simp add: emitEvent_def walk_settles split: option.splits json.splits)

text \<open>The dispatch for a kind, seen from the list the map holds for it.\<close>

lemma emitEvent_one_call_each:
  assumes "\<forall>g \<in> set (handlers_of st kind). \<forall>c \<in> set (calling thr g). \<not> unsubscribes_from kind c"
  shows "trace (emitEvent thr now (JStr kind) d st) =
           trace st @ one_call_each thr kind (event_object (JStr kind) now d) (handlers_of st kind)"
proof (cases "eventSubscriptions st kind")
  case None
  then show ?thesis
    by (simp add: emitEvent_def handlers_of_def)
next
  case (Some hs)
  then have w: "walked_array kind None st = [] @ hs @ []" and h: "handlers_of st kind = hs"
    by (simp_all add: walked_array_def handlers_of_def)
  have "trace (walk thr kind 0 (length hs) (event_object (JStr kind) now d) None st) =
          trace st @ one_call_each thr kind (event_object (JStr kind) now d) hs"
    using assms h by (intro walk_one_call_each [OF w]) simp_all
  with Some h show ?thesis
    by (cases hs) (simp_all add: emitEvent_def)
qed


lemma emitEvent_first:
  assumes "eventSubscriptions st kind = Some (h # hs)"
  shows "\<exists>es. trace (emitEvent thr now (JStr kind) d st) =
               trace st @ EventCall h (event_object (JStr kind) now d) # es"
proof -
  have "walked_array kind None st = h # hs"
    using assms by (simp add: walked_array_def handlers_of_def)
  from walk_first [OF this] assms show ?thesis
    by (simp add: emitEvent_def)
qed

lemma emitEvent_carried:
  assumes "\<forall>g. mutating thr g (event_object (JStr kind) now d) = event_object (JStr kind) now d"
  shows "\<exists>es. trace (emitEvent thr now (JStr kind) d st) = trace st @ es
             \<and> set (List.map_filter carried es) \<subseteq> {event_object (JStr kind) now d}"
proof (cases "eventSubscriptions st kind")
  case None
  then show ?thesis
    by (simp add: emitEvent_def List.map_filter_def)
next
  case (Some hs)
  show ?thesis
  proof (cases hs)
    case Nil
    with Some show ?thesis
      by (simp add: emitEvent_def List.map_filter_def)
  next
    case (Cons a list)
    with Some walk_carried [OF assms, of kind 0 "length hs" None st] show ?thesis
      by (simp add: emitEvent_def del: walk.simps)
  qed
qed

text \<open>The members of the event object: the payload's binding where it has one, else the
  dispatcher's.\<close>

lemma event_object_members:
  "member (event_object eventType now (JObj kvs)) k =
     (case map_of kvs k of
        Some v \<Rightarrow> Some v
      | None \<Rightarrow> map_of [(''type'', eventType), (''timestamp'', JNum now)] k)"
  by (simp add: event_object_def merge_conv map_add_def split: option.splits)

lemma handleMessage_settles:
  "filter (settles r) (trace (handleMessage thr now f st)) = filter (settles r) (trace st)"
  by (simp add: handleMessage_def emit_def emitEvent_settles split: option.splits)

text \<open>The closure of request \<open>r\<close>, whatever the frame, leaves no entry for \<open>r\<close> in the table.\<close>

lemma handleResponse_pending:
  "map_of (pendingRequests (handleResponse r f st)) r = None"
  by (simp add: handleResponse_def Let_def emit_def clear_pending_def detach_def AList.delete_conv
        split: option.splits)

lemma handleResponse_trace_undecodable:
  "parsed f = None \<Longrightarrow>
   trace (handleResponse r f st) =
     trace st @ [ConsoleError FailedToParseResponse, Resolve r (Some (JStr (raw_text f)))]"
  by (simp add: handleResponse_def Let_def emit_def clear_pending_def detach_def split: option.splits)

lemma handleResponse_trace_failure:
  "parsed f = Some (JObj kvs) \<Longrightarrow> \<not> truthy (map_of kvs ''success'') \<Longrightarrow>
   trace (handleResponse r f st) =
     trace st @ [Reject r (Error (or_else (map_of kvs ''error'') (JStr ''Command failed'')))]"
  by (simp add: handleResponse_def Let_def emit_def clear_pending_def detach_def split: option.splits)

lemma handleResponse_trace_success:
  "parsed f = Some (JObj kvs) \<Longrightarrow> truthy (map_of kvs ''success'') \<Longrightarrow>
   trace (handleResponse r f st) = trace st @ [Resolve r (map_of kvs ''data'')]"
  by (simp add: handleResponse_def Let_def emit_def clear_pending_def detach_def split: option.splits)

text \<open>With one request outstanding on a socket, a frame runs \<^verbatim>\<open>handleMessage\<close> and then the
  request's closure.\<close>

lemma ws_message_single:
  "sid < length (sockets st) \<Longrightarrow>
   message_listeners (sockets st ! sid) = [HandleMessage, HandleResponse r] \<Longrightarrow>
   ws_message sid thr now f st = handleResponse r f (handleMessage thr now f st)"
  by (simp add: ws_message_def run_listener_def)






subsection \<open>Exactly-once settlement of a request\<close>

text \<open>
  Claim C1: for every request registered in the pending-request table exactly one of resolution
  by a response, rejection by timeout and rejection by disconnect fires, never more than one.
  The timer and the response closure detach the request's \<^verbatim>\<open>message\<close> listener;
  \<^verbatim>\<open>cleanupPendingRequests\<close> does not, and the closure calls \<^verbatim>\<open>resolve\<close> or \<^verbatim>\<open>reject\<close> without
  looking at the table. In the run below request 0 is rejected with "Connection closed" when
  socket 0 closes, and the answer arriving afterwards on socket 1 calls its \<^verbatim>\<open>resolve\<close> as well.
\<close>

theorem stale_listener_settles_twice:
  "trace stale_listener_run =
     [ConnectResolve 0, ConnectResolve 1,
      Reject 0 (Error (JStr ''Connection closed'')),
      Resolve 0 (Some (JObj [(''monitors'', JArr [])]))]
   \<and> filter (settles 0) (trace stale_listener_run) =
     [Reject 0 (Error (JStr ''Connection closed'')),
      Resolve 0 (Some (JObj [(''monitors'', JArr [])]))]"
  by code_simp

text \<open>The same on a single socket, when a frame is delivered between \<^verbatim>\<open>disconnect()\<close> and the
  end of the closing handshake; the listener is still attached afterwards.\<close>

lemma late_frame_after_disconnect:
  "filter (settles 0) (trace disconnect_run) =
     [Reject 0 (Error (JStr ''Connection closed'')),
      Resolve 0 (Some (JObj [(''monitors'', JArr [])]))]
   \<and> map message_listeners (sockets disconnect_run) = [[HandleMessage, HandleResponse 0]]"
  by code_simp

text \<open>After the request's timer has gone off the listener is gone, and a late answer does nothing.\<close>

lemma late_frame_after_timeout:
  "filter (settles 0) (trace timeout_run) =
     [Reject 0 (Error (JStr ''Request timeout after 50ms: query monitors''))]
   \<and> map message_listeners (sockets timeout_run) = [[HandleMessage]]"
  by code_simp

subsection \<open>Disconnecting\<close>

text \<open>
  Claim C2: \<^verbatim>\<open>disconnect()\<close> calls the \<^verbatim>\<open>reject\<close> of every pending entry with the error
  "Connection closed", in table order, clears their timers and leaves the table empty; it does
  so whether or not a socket is held, and a second call changes nothing.
\<close>

theorem disconnect_rejects_all_pending:
  "trace (disconnect st) =
     trace st @ map (\<lambda>(requestId, p). Reject (reject p) (Error (JStr ''Connection closed'')))
                  (pendingRequests st)
   \<and> pendingRequests (disconnect st) = []
   \<and> timers (disconnect st) = timers st |` (- (timeout \<circ> snd) ` set (pendingRequests st))
   \<and> ws (disconnect st) = None
   \<and> disconnect (disconnect st) = disconnect st"
proof -
  have a: "pendingRequests (disconnect st) = []" "ws (disconnect st) = None"
    by (auto simp: disconnect_def cleanupPendingRequests_eq split: option.splits)
  have "disconnect (disconnect st) = cleanupPendingRequests (disconnect st)"
    using a(2) by (simp add: disconnect_def [of "disconnect st"])
  also have "\<dots> = disconnect st"
    using a(1) by (rule cleanupPendingRequests_empty)
  finally have idem: "disconnect (disconnect st) = disconnect st" .
  have tr: "trace (disconnect st) =
     trace st @ map (\<lambda>(requestId, p). Reject (reject p) (Error (JStr ''Connection closed'')))
                  (pendingRequests st)"
    by (simp add: disconnect_def cleanupPendingRequests_eq split: option.splits)
  have tm: "timers (disconnect st) = timers st |` (- (timeout \<circ> snd) ` set (pendingRequests st))"
    by (simp add: disconnect_def cleanupPendingRequests_eq split: option.splits)
  from tr a tm idem show ?thesis by simp
qed

text \<open>Two requests outstanding: both are rejected, and a second \<^verbatim>\<open>disconnect()\<close> adds nothing.\<close>

theorem disconnect_rejects_all_pending_witness:
  "map fst (pendingRequests two_pending) = [0, 1]
   \<and> trace (disconnect two_pending) =
       [ConnectResolve 0, Reject 0 (Error (JStr ''Connection closed'')),
        Reject 1 (Error (JStr ''Connection closed''))]
   \<and> pendingRequests (disconnect two_pending) = []
   \<and> trace (disconnect (disconnect two_pending)) = trace (disconnect two_pending)"
proof -
  have p: "pendingRequests two_pending =
      [(0, \<lparr>resolve = 0, reject = 0, timeout = 1\<rparr>), (1, \<lparr>resolve = 1, reject = 1, timeout = 2\<rparr>)]"
    by code_simp
  have t: "trace two_pending = [ConnectResolve 0]"
    by code_simp
  show ?thesis
    using disconnect_rejects_all_pending [of two_pending] by (simp add: p t)
qed

subsection \<open>Answers to a request\<close>

text \<open>
  Claim C3, as the code has it: when a frame decoding to an object with \<^verbatim>\<open>success\<close> false
  arrives while exactly one request is outstanding on the socket, that request is rejected
  exactly once; the error carries the response's \<^verbatim>\<open>error\<close> string when that string is not
  empty, and "Command failed" when the member is absent or is the empty string.
\<close>

theorem failed_command_rejects:
  assumes "sid < length (sockets st)"
    and "message_listeners (sockets st ! sid) = [HandleMessage, HandleResponse r]"
    and "parsed f = Some (JObj kvs)"
    and "map_of kvs ''success'' = Some (JBool False)"
  shows "(map_of kvs ''error'' = Some (JStr x) \<and> x \<noteq> [] \<longrightarrow>
            filter (settles r) (trace (ws_message sid thr now f st)) =
              filter (settles r) (trace st) @ [Reject r (Error (JStr x))])
       \<and> (map_of kvs ''error'' = None \<or> map_of kvs ''error'' = Some (JStr []) \<longrightarrow>
            filter (settles r) (trace (ws_message sid thr now f st)) =
              filter (settles r) (trace st) @ [Reject r (Error (JStr ''Command failed''))])
       \<and> map_of (pendingRequests (ws_message sid thr now f st)) r = None"
proof -
  have "filter (settles r) (trace (ws_message sid thr now f st)) =
          filter (settles r) (trace st)
          @ [Reject r (Error (or_else (map_of kvs ''error'') (JStr ''Command failed'')))]"
    using assms
    by (simp add: ws_message_single handleResponse_trace_failure handleMessage_settles)
  then show ?thesis
    using assms by (auto simp: ws_message_single handleResponse_pending)
qed

theorem failed_command_rejects_witness:
  "filter (settles 0) (trace (ws_message 0 no_throw 0 error_frame pending_query)) =
     [Reject 0 (Error (JStr ''unknown command''))]
   \<and> filter (settles 0) (trace (ws_message 0 no_throw 0 no_error_frame pending_query)) =
     [Reject 0 (Error (JStr ''Command failed''))]"
proof -
  have s: "0 < length (sockets pending_query)"
    by code_simp
  have l: "message_listeners (sockets pending_query ! 0) = [HandleMessage, HandleResponse 0]"
    by code_simp
  have t: "filter (settles 0) (trace pending_query) = []"
    by code_simp
  have p1: "parsed error_frame =
      Some (JObj [(''success'', JBool False), (''error'', JStr ''unknown command'')])"
    by (simp add: error_frame_def)
  have q1: "map_of [(''success'', JBool False), (''error'', JStr ''unknown command'')] ''success''
      = Some (JBool False)"
    by simp
  have p2: "parsed no_error_frame = Some (JObj [(''success'', JBool False)])"
    by (simp add: no_error_frame_def)
  have q2: "map_of [(''success'', JBool False)] ''success'' = Some (JBool False)"
    by simp
  show ?thesis
    using failed_command_rejects [OF s l p1 q1, of "''unknown command''" no_throw 0]
      failed_command_rejects [OF s l p2 q2, of "''x''" no_throw 0]
    by (simp add: t)
qed

text \<open>The claim as written fails for an \<^verbatim>\<open>error\<close> member that is the empty string: the message
  is then "Command failed", not the response's string.\<close>

theorem empty_error_string_counterexample:
  "parsed empty_error_frame = Some (JObj [(''success'', JBool False), (''error'', JStr [])])
   \<and> trace (ws_message 0 no_throw 0 empty_error_frame pending_query) =
       [ConnectResolve 0, Reject 0 (Error (JStr ''Command failed''))]"
  by code_simp

text \<open>
  Claim C4, as the code has it: when a frame that does not parse arrives while exactly one
  request is outstanding on the socket, that request is completed successfully: its entry is
  removed and \<^verbatim>\<open>resolve\<close> is called with the raw text of the frame.
\<close>

theorem undecodable_frame_resolves_with_text:
  assumes "sid < length (sockets st)"
    and "message_listeners (sockets st ! sid) = [HandleMessage, HandleResponse r]"
    and "parsed f = None"
  shows "trace (ws_message sid thr now f st) =
           trace st @ [ConsoleError FailedToParseMessage, ConsoleError FailedToParseResponse,
                       Resolve r (Some (JStr (raw_text f)))]
       \<and> map_of (pendingRequests (ws_message sid thr now f st)) r = None"
proof -
  have "handleMessage thr now f st = emit [ConsoleError FailedToParseMessage] st"
    using assms(3) by (simp add: handleMessage_def)
  then show ?thesis
    using assms
    by (simp add: ws_message_single handleResponse_pending handleResponse_trace_undecodable emit_def)
qed

theorem undecodable_frame_resolves_with_text_witness:
  "parsed garbage_frame = None
   \<and> filter (settles 0) (trace (ws_message 0 no_throw 0 garbage_frame pending_query)) =
       [Resolve 0 (Some (JStr ''not json''))]
   \<and> map_of (pendingRequests (ws_message 0 no_throw 0 garbage_frame pending_query)) 0 = None"
proof -
  have s: "0 < length (sockets pending_query)"
    by code_simp
  have l: "message_listeners (sockets pending_query ! 0) = [HandleMessage, HandleResponse 0]"
    by code_simp
  have t: "trace pending_query = [ConnectResolve 0]"
    by code_simp
  have p: "parsed garbage_frame = None"
    by (simp add: garbage_frame_def)
  have r: "raw_text garbage_frame = ''not json''"
    by (simp add: garbage_frame_def)
  show ?thesis
    using undecodable_frame_resolves_with_text [OF s l p, of no_throw 0] p by (simp add: t r)
qed

text \<open>The claim as written says the request fails; the run shows \<^verbatim>\<open>resolve\<close> called and no
  \<^verbatim>\<open>reject\<close>.\<close>

theorem undecodable_frame_counterexample:
  "trace (ws_message 0 no_throw 0 garbage_frame pending_query) =
     [ConnectResolve 0, ConsoleError FailedToParseMessage, ConsoleError FailedToParseResponse,
      Resolve 0 (Some (JStr ''not json''))]"
  by code_simp

subsection \<open>Events\<close>

text \<open>
  Claim C5, as the code has it: a decoded object is handed to the event dispatcher exactly when
  its \<^verbatim>\<open>type\<close> and \<^verbatim>\<open>data\<close> members are both present and both truthy (not \<^verbatim>\<open>null\<close>, \<^verbatim>\<open>false\<close>, 0
  or the empty string); in every other case, in particular when either member is absent,
  \<^verbatim>\<open>handleMessage\<close> dispatches nothing and leaves the client as it is.
\<close>

theorem handleMessage_dispatches_iff_truthy:
  "handleMessage thr now (Frame txt (Some (JObj kvs))) st =
     (case (map_of kvs ''type'', map_of kvs ''data'') of
        (Some ty, Some d) \<Rightarrow>
          if truthy (Some ty) \<and> truthy (Some d) then emitEvent thr now ty d st else st
      | _ \<Rightarrow> st)"
  by (simp add: handleMessage_def is_event_def split: option.splits)

theorem handleMessage_dispatches_iff_truthy_witness:
  "trace (handleMessage no_throw 17 focus_frame subscribed_client) =
     [ConnectResolve 0,
      EventCall 7 (JObj [(''type'', JStr ''focus_changed''), (''timestamp'', JNum 17),
                         (''focusedContainer'', JObj [(''id'', JStr ''w1'')])])]
   \<and> handleMessage no_throw 17 no_error_frame subscribed_client = subscribed_client"
proof -
  have e: "trace (emitEvent no_throw 17 (JStr ''focus_changed'')
                    (JObj [(''focusedContainer'', JObj [(''id'', JStr ''w1'')])]) subscribed_client) =
     [ConnectResolve 0,
      EventCall 7 (JObj [(''type'', JStr ''focus_changed''), (''timestamp'', JNum 17),
                         (''focusedContainer'', JObj [(''id'', JStr ''w1'')])])]"
    by code_simp
  show ?thesis
    using handleMessage_dispatches_iff_truthy [of no_throw 17 "raw_text focus_frame"
        "[(''type'', JStr ''focus_changed''),
          (''data'', JObj [(''focusedContainer'', JObj [(''id'', JStr ''w1'')])])]" subscribed_client]
      handleMessage_dispatches_iff_truthy [of no_throw 17 "raw_text no_error_frame"
        "[(''success'', JBool False)]" subscribed_client]
    by (simp add: e focus_frame_def no_error_frame_def)
qed

text \<open>The claim as written asks for presence only: here both members are present, a handler is
  subscribed to the kind, and nothing is dispatched.\<close>

theorem present_but_falsy_counterexample:
  "parsed falsy_data_frame = Some (JObj [(''type'', JStr ''focus_changed''), (''data'', JBool False)])
   \<and> handlers_of subscribed_client ''focus_changed'' = [7]
   \<and> trace (ws_message 0 no_throw 17 falsy_data_frame subscribed_client) = trace subscribed_client
   \<and> trace (ws_message 0 no_throw 17 focus_frame subscribed_client) =
       trace subscribed_client
       @ [EventCall 7 (JObj [(''type'', JStr ''focus_changed''), (''timestamp'', JNum 17),
                             (''focusedContainer'', JObj [(''id'', JStr ''w1'')])])]"
  by code_simp

text \<open>
  Claim C6, as the code has it: when an event of a kind is dispatched, every entry of that
  kind's subscriber list is invoked exactly once, in registration order, so that a handler
  subscribed several times is invoked once for each of its subscriptions; an exception thrown
  by one handler is caught and logged, the remaining entries are still invoked, and the
  dispatch returns. This holds for handlers that do not unsubscribe from that kind while the
  dispatch is running; they may subscribe, unsubscribe from all kinds, change the event
  object or throw.
\<close>

theorem emitEvent_invokes_every_entry:
  assumes "eventSubscriptions st kind = Some hs"
    and "\<forall>g \<in> set hs. \<forall>c \<in> set (calling thr g). \<not> unsubscribes_from kind c"
  shows "trace (emitEvent thr now (JStr kind) data st) =
           trace st @ one_call_each thr kind (event_object (JStr kind) now data) hs
       \<and> List.map_filter invoked (trace (emitEvent thr now (JStr kind) data st)) =
           List.map_filter invoked (trace st) @ hs"
proof -
  have h: "handlers_of st kind = hs"
    using assms(1) by (simp add: handlers_of_def)
  have "trace (emitEvent thr now (JStr kind) data st) =
          trace st @ one_call_each thr kind (event_object (JStr kind) now data) hs"
    using emitEvent_one_call_each [of st kind thr now data] assms(2) h by simp
  then show ?thesis
    by (simp add: map_filter_append invoked_one_call_each)
qed

text \<open>Three entries, the first of which subscribes another handler to another kind, overwrites
  the \<^verbatim>\<open>type\<close> member of the event object and throws: all three are invoked, in order, and the
  later ones see the object as the first left it.\<close>

theorem emitEvent_invokes_every_entry_witness:
  "eventSubscriptions three_subscribers ''focus_changed'' = Some [7, 8, 9]
   \<and> trace (emitEvent busy_first 17 (JStr ''focus_changed'') (JObj []) three_subscribers) =
       [ConnectResolve 0,
        EventCall 7 (JObj [(''type'', JStr ''focus_changed''), (''timestamp'', JNum 17)]),
        ConsoleError (ErrorInEventHandler (JStr ''focus_changed'')),
        EventCall 8 (JObj [(''type'', JStr ''seen''), (''timestamp'', JNum 17)]),
        EventCall 9 (JObj [(''type'', JStr ''seen''), (''timestamp'', JNum 17)])]
   \<and> List.map_filter invoked
       (trace (emitEvent busy_first 17 (JStr ''focus_changed'') (JObj []) three_subscribers)) = [7, 8, 9]"
proof -
  have h: "eventSubscriptions three_subscribers ''focus_changed'' = Some [7, 8, 9]"
    by code_simp
  have p: "\<forall>g \<in> set [7, 8, 9]. \<forall>c \<in> set (calling busy_first g). \<not> unsubscribes_from ''focus_changed'' c"
    by (simp add: busy_first_def)
  have t: "trace three_subscribers = [ConnectResolve 0]"
    by code_simp
  have o: "one_call_each busy_first ''focus_changed'' (event_object (JStr ''focus_changed'') 17 (JObj [])) [7, 8, 9] =
       [EventCall 7 (JObj [(''type'', JStr ''focus_changed''), (''timestamp'', JNum 17)]),
        ConsoleError (ErrorInEventHandler (JStr ''focus_changed'')),
        EventCall 8 (JObj [(''type'', JStr ''seen''), (''timestamp'', JNum 17)]),
        EventCall 9 (JObj [(''type'', JStr ''seen''), (''timestamp'', JNum 17)])]"
    by code_simp
  show ?thesis
    using emitEvent_invokes_every_entry [OF h p, of 17 "JObj []"] h
    by (simp add: t o List.map_filter_def del: one_call_each.simps)
qed

text \<open>The claim as written says every subscribed handler is invoked exactly once: a handler
  subscribed twice for the kind is invoked twice for one event.\<close>

theorem subscribed_twice_counterexample:
  "handlers_of twice_subscribed ''focus_changed'' = [7, 7]
   \<and> trace (emitEvent no_throw 17 (JStr ''focus_changed'') (JObj []) twice_subscribed) =
       [ConnectResolve 0,
        EventCall 7 (JObj [(''type'', JStr ''focus_changed''), (''timestamp'', JNum 17)]),
        EventCall 7 (JObj [(''type'', JStr ''focus_changed''), (''timestamp'', JNum 17)])]"
  by code_simp

text \<open>
  What the statement above leaves out: \<^verbatim>\<open>forEach\<close> walks the array that \<^verbatim>\<open>unsubscribe\<close> splices.
  With handlers 7 and 8 subscribed, handler 7 unsubscribes itself when invoked; the array
  shrinks to one entry, index 1 is empty when the loop reaches it, and handler 8 is not
  invoked for this event although it stays subscribed.
\<close>

lemma unsubscribing_handler_skips_next:
  "handlers_of two_subscribers ''focus_changed'' = [7, 8]
   \<and> trace (ws_message 0 runs_once 17 focus_frame two_subscribers) =
       [ConnectResolve 0,
        EventCall 7 (JObj [(''type'', JStr ''focus_changed''), (''timestamp'', JNum 17),
                           (''focusedContainer'', JObj [(''id'', JStr ''w1'')])])]
   \<and> handlers_of (ws_message 0 runs_once 17 focus_frame two_subscribers) ''focus_changed'' = [8]"
  by code_simp




text \<open>
  Claim C10: the event object \<^verbatim>\<open>emitEvent\<close> hands to the subscribers is the kind tag and the
  timestamp with the members of the payload written over them. The first subscriber is
  invoked with exactly that object, and so is every other subscriber unless a handler invoked
  before it changed the object. In that object a \<^verbatim>\<open>type\<close> or \<^verbatim>\<open>timestamp\<close> member of the
  payload replaces the dispatcher's value, and every other member reads as in the payload.
\<close>

theorem subscribers_receive_payload_over_tag:
  assumes "eventSubscriptions st kind = Some (h # hs)"
  shows "take (Suc (length (trace st))) (trace (emitEvent thr now (JStr kind) (JObj kvs) st)) =
           trace st @ [EventCall h (event_object (JStr kind) now (JObj kvs))]
       \<and> ((\<forall>g. mutating thr g (event_object (JStr kind) now (JObj kvs)) = event_object (JStr kind) now (JObj kvs))
            \<longrightarrow> set (List.map_filter carried
                        (drop (length (trace st)) (trace (emitEvent thr now (JStr kind) (JObj kvs) st))))
                   \<subseteq> {event_object (JStr kind) now (JObj kvs)})
       \<and> member (event_object (JStr kind) now (JObj kvs)) ''type'' =
           Some (case map_of kvs ''type'' of Some v \<Rightarrow> v | None \<Rightarrow> JStr kind)
       \<and> member (event_object (JStr kind) now (JObj kvs)) ''timestamp'' =
           Some (case map_of kvs ''timestamp'' of Some v \<Rightarrow> v | None \<Rightarrow> JNum now)
       \<and> member (event_object (JStr kind) now (JObj kvs)) k =
           (case map_of kvs k of
              Some v \<Rightarrow> Some v
            | None \<Rightarrow> map_of [(''type'', JStr kind), (''timestamp'', JNum now)] k)"
proof -
  let ?ev = "event_object (JStr kind) now (JObj kvs)"
  let ?tr = "trace (emitEvent thr now (JStr kind) (JObj kvs) st)"
  obtain es where "?tr = trace st @ EventCall h ?ev # es"
    using emitEvent_first [OF assms] by blast
  then have a: "take (Suc (length (trace st))) ?tr = trace st @ [EventCall h ?ev]"
    by simp
  have b: "(\<forall>g. mutating thr g ?ev = ?ev) \<longrightarrow>
             set (List.map_filter carried (drop (length (trace st)) ?tr)) \<subseteq> {?ev}"
  proof
    assume "\<forall>g. mutating thr g ?ev = ?ev"
    from emitEvent_carried [OF this, of st]
    obtain es' where "?tr = trace st @ es'" "set (List.map_filter carried es') \<subseteq> {?ev}"
      by blast
    then show "set (List.map_filter carried (drop (length (trace st)) ?tr)) \<subseteq> {?ev}"
      by simp
  qed
  have c: "member ?ev ''type'' = Some (case map_of kvs ''type'' of Some v \<Rightarrow> v | None \<Rightarrow> JStr kind)"
    by (simp add: event_object_members split: option.splits)
  have d: "member ?ev ''timestamp'' = Some (case map_of kvs ''timestamp'' of Some v \<Rightarrow> v | None \<Rightarrow> JNum now)"
    by (simp add: event_object_members split: option.splits)
  from a b c d event_object_members [of "JStr kind" now kvs k] show ?thesis
    by simp
qed

text \<open>A payload that has its own \<^verbatim>\<open>type\<close> and \<^verbatim>\<open>timestamp\<close>, sent to two subscribers: both
  receive an object tagged \<^verbatim>\<open>window\<close> with timestamp 1.\<close>

theorem subscribers_receive_payload_over_tag_witness:
  "eventSubscriptions two_subscribers ''focus_changed'' = Some [7, 8]
   \<and> trace (emitEvent no_throw 17 (JStr ''focus_changed'')
              (JObj [(''type'', JStr ''window''), (''timestamp'', JNum 1)]) two_subscribers) =
       [ConnectResolve 0,
        EventCall 7 (JObj [(''type'', JStr ''window''), (''timestamp'', JNum 1)]),
        EventCall 8 (JObj [(''type'', JStr ''window''), (''timestamp'', JNum 1)])]
   \<and> member (event_object (JStr ''focus_changed'') 17
               (JObj [(''type'', JStr ''window''), (''timestamp'', JNum 1)])) ''type'' = Some (JStr ''window'')
   \<and> member (event_object (JStr ''focus_changed'') 17
               (JObj [(''type'', JStr ''window''), (''timestamp'', JNum 1)])) ''timestamp'' = Some (JNum 1)"
proof -
  have h: "eventSubscriptions two_subscribers ''focus_changed'' = Some [7, 8]"
    by code_simp
  have r: "trace (emitEvent no_throw 17 (JStr ''focus_changed'')
              (JObj [(''type'', JStr ''window''), (''timestamp'', JNum 1)]) two_subscribers) =
       [ConnectResolve 0,
        EventCall 7 (JObj [(''type'', JStr ''window''), (''timestamp'', JNum 1)]),
        EventCall 8 (JObj [(''type'', JStr ''window''), (''timestamp'', JNum 1)])]"
    by code_simp
  show ?thesis
    using subscribers_receive_payload_over_tag
            [OF h, of no_throw 17 "[(''type'', JStr ''window''), (''timestamp'', JNum 1)]" "''type''"] h
    by (simp add: r)
qed

text \<open>On the wire: the subscriber of \<^verbatim>\<open>focus_changed\<close> receives an object tagged \<^verbatim>\<open>window\<close>.\<close>

lemma tagged_payload_delivery:
  "trace (ws_message 0 no_throw 17 tagged_payload_frame subscribed_client) =
     [ConnectResolve 0, EventCall 7 (JObj [(''type'', JStr ''window''), (''timestamp'', JNum 1)])]"
  by code_simp

subsection \<open>Timeouts and the connection guard\<close>

text \<open>
  Claim C8: when the timer of a request goes off, which it does only if nothing has cleared it
  before, the entry of the request is removed from the table and the request is rejected with
  an error whose message is "Request timeout after", the configured duration, "ms:" and the
  command text that was sent.
\<close>

theorem request_timeout_rejects:
  assumes "timers st t = Some (RequestTimer r command)"
  shows "trace (timer_fires t thr st) =
           trace st @ [Reject r (Error (JStr (''Request timeout after '' @ show_nat (options_timeout st)
                                               @ ''ms: '' @ command)))]
       \<and> map_of (pendingRequests (timer_fires t thr st)) r = None
       \<and> timers (timer_fires t thr st) t = None"
  using assms
  by (simp add: timer_fires_def Let_def emit_def detach_def request_timeout_def map_of_delete_self
        split: option.splits)

theorem request_timeout_rejects_witness:
  "timers pending_query 1 = Some (RequestTimer 0 ''query monitors'')
   \<and> trace (timer_fires 1 no_throw pending_query) =
       [ConnectResolve 0, Reject 0 (Error (JStr ''Request timeout after 50ms: query monitors''))]
   \<and> map_of (pendingRequests (timer_fires 1 no_throw pending_query)) 0 = None
   \<and> timers (timer_fires 1 no_throw pending_query) 1 = None"
proof -
  have h: "timers pending_query 1 = Some (RequestTimer 0 ''query monitors'')"
    by code_simp
  have t: "trace pending_query = [ConnectResolve 0]"
    by code_simp
  have o: "options_timeout pending_query = 50"
    by code_simp
  have s: "show_nat 50 = ''50''"
    by code_simp
  show ?thesis
    using request_timeout_rejects [OF h, of no_throw] h by (simp add: t o s)
qed

text \<open>
  Claim C9: each of \<^verbatim>\<open>queryMonitors\<close>, \<^verbatim>\<open>queryWorkspaces\<close>, \<^verbatim>\<open>queryWindows\<close>, \<^verbatim>\<open>queryFocused\<close> and
  \<^verbatim>\<open>runCommand\<close>, called while the client holds no socket or is not connected, fails with the
  error "Not connected to GlazeWM IPC" and leaves the whole state as it was: nothing is sent,
  no entry is added, no identifier is used up.
\<close>

theorem not_connected_fails:
  assumes "ws st = None \<or> \<not> isConnected st"
  shows "queryMonitors st = (Inl (Error (JStr ''Not connected to GlazeWM IPC'')), st)
       \<and> queryWorkspaces st = (Inl (Error (JStr ''Not connected to GlazeWM IPC'')), st)
       \<and> queryWindows st = (Inl (Error (JStr ''Not connected to GlazeWM IPC'')), st)
       \<and> queryFocused st = (Inl (Error (JStr ''Not connected to GlazeWM IPC'')), st)
       \<and> runCommand command subject st = (Inl (Error (JStr ''Not connected to GlazeWM IPC'')), st)"
  using assms
  by (auto simp: queryMonitors_def queryWorkspaces_def queryWindows_def queryFocused_def
        runCommand_def sendRequest_def isConnected_def split: option.splits)

text \<open>A client whose socket has not opened yet, and one that has disconnected.\<close>

theorem not_connected_fails_witness:
  "\<not> isConnected (connect (new_WmClient None None (Some False) None))
   \<and> fst (queryMonitors (connect (new_WmClient None None (Some False) None))) =
       Inl (Error (JStr ''Not connected to GlazeWM IPC''))
   \<and> map sent (sockets (snd (queryMonitors (connect (new_WmClient None None (Some False) None))))) = [[]]
   \<and> pendingRequests (snd (runCommand ''close'' None (disconnect connected_client))) = []"
proof -
  have a: "\<not> isConnected (connect (new_WmClient None None (Some False) None))"
    by code_simp
  have b: "ws (disconnect connected_client) = None"
    by code_simp
  have c: "map sent (sockets (connect (new_WmClient None None (Some False) None))) = [[]]"
    by code_simp
  have d: "pendingRequests (disconnect connected_client) = []"
    by code_simp
  show ?thesis
    using not_connected_fails [of "connect (new_WmClient None None (Some False) None)"]
      not_connected_fails [of "disconnect connected_client" "''close''" None] a b
    by (simp add: c d)
qed

end
